theory Spec2Isabelle
  imports Main "HOL-Library.Sublist"
begin

section \<open>Text: characters and the string methods the agents call\<close>

text \<open>
  A Python \<open>str\<close> is a sequence of code points. Here it is a \<open>string\<close> whose
  characters are read as the code points 0 to 255 (ASCII and Latin-1), with the
  classes of the Unicode database on that range. \<open>length\<close> counts code points, as
  \<open>len\<close> does.
\<close>

definition isspace :: "char \<Rightarrow> bool" where
  \<comment> \<open>\<open>str.isspace\<close> on one character; \<open>\s\<close>, \<open>strip()\<close> and \<open>split()\<close> use the same class\<close>
  "isspace c = (let n = (of_char c :: nat) in
     (9 \<le> n \<and> n \<le> 13) \<or> (28 \<le> n \<and> n \<le> 32) \<or> n = 133 \<or> n = 160)"

definition isupper :: "char \<Rightarrow> bool" where
  \<comment> \<open>\<open>str.isupper\<close> on one character: A-Z and the Latin-1 capitals\<close>
  "isupper c = (let n = (of_char c :: nat) in
     (65 \<le> n \<and> n \<le> 90) \<or> (192 \<le> n \<and> n \<le> 214) \<or> (216 \<le> n \<and> n \<le> 222))"

definition islower :: "char \<Rightarrow> bool" where
  \<comment> \<open>\<open>str.islower\<close> on one character\<close>
  "islower c = (let n = (of_char c :: nat) in
     (97 \<le> n \<and> n \<le> 122) \<or> n = 170 \<or> n = 181 \<or> n = 186 \<or>
     (223 \<le> n \<and> n \<le> 246) \<or> (248 \<le> n \<and> n \<le> 255))"

definition lower_char :: "char \<Rightarrow> char" where
  "lower_char c = (if isupper c then char_of (of_char c + (32::nat)) else c)"

definition lower :: "string \<Rightarrow> string" where
  \<comment> \<open>\<open>str.lower()\<close>\<close>
  "lower s = map lower_char s"

definition strip :: "string \<Rightarrow> string" where
  \<comment> \<open>\<open>str.strip()\<close>: leading and trailing whitespace removed\<close>
  "strip s = rev (dropWhile isspace (rev (dropWhile isspace s)))"

fun split :: "string \<Rightarrow> string list" where
  \<comment> \<open>\<open>str.split()\<close>: the maximal runs of non-whitespace characters\<close>
  "split [] = []"
| "split (c # cs) =
     (if isspace c then split cs
      else (case split cs of
              [] \<Rightarrow> [[c]]
            | w # ws \<Rightarrow> (case cs of
                          [] \<Rightarrow> [[c]]
                        | d # _ \<Rightarrow> if isspace d then [c] # w # ws else (c # w) # ws)))"

fun join :: "string \<Rightarrow> string list \<Rightarrow> string" where
  \<comment> \<open>\<open>sep.join(parts)\<close>\<close>
  "join sep [] = []"
| "join sep [w] = w"
| "join sep (w # v # ws) = w @ sep @ join sep (v # ws)"

fun contains :: "string \<Rightarrow> string \<Rightarrow> bool" where
  \<comment> \<open>\<open>contains sub s\<close> is Python's \<open>sub in s\<close>\<close>
  "contains sub [] = (sub = [])"
| "contains sub (c # cs) = (prefix sub (c # cs) \<or> contains sub cs)"

section \<open>Regular expressions, as \<open>re.search\<close> runs them\<close>

text \<open>
  The two patterns of \<open>extract_location\<close> are data. The matcher is the
  backtracking one of \<open>re\<close>: it lists every way a pattern can match at the head
  of the input, in the order the engine tries them (the left alternative first, a greedy
  repetition longest first, a lazy one shortest first). The first entry is the match
  \<open>re\<close> returns. A state is the input still to read and the text of group 1.
\<close>

datatype cclass = Upper_AZ | Alpha_or_space | Space

fun in_class :: "cclass \<Rightarrow> char \<Rightarrow> bool" where
  "in_class Upper_AZ c = (let n = (of_char c :: nat) in 65 \<le> n \<and> n \<le> 90)"
| "in_class Alpha_or_space c = (let n = (of_char c :: nat) in
     (97 \<le> n \<and> n \<le> 122) \<or> (65 \<le> n \<and> n \<le> 90) \<or> isspace c)"
| "in_class Space c = isspace c"

datatype regex =
    Lit string
  | Cls cclass
  | Plus cclass
  | LazyPlus cclass
  | Eos
  | Alt regex regex
  | Seq regex regex
  | Group regex

type_synonym mstate = "string \<times> string option"

fun lazy_runs :: "cclass \<Rightarrow> string \<Rightarrow> string list" where
  \<comment> \<open>the inputs left after one character of the class, two, ...: shortest match first\<close>
  "lazy_runs k [] = []"
| "lazy_runs k (c # cs) = (if in_class k c then cs # lazy_runs k cs else [])"

fun matches :: "regex \<Rightarrow> mstate \<Rightarrow> mstate list" where
  "matches (Lit l) (s, g) = (if prefix l s then [(drop (length l) s, g)] else [])"
| "matches (Cls k) (s, g) =
     (case s of [] \<Rightarrow> [] | c # cs \<Rightarrow> if in_class k c then [(cs, g)] else [])"
| "matches (Plus k) (s, g) = map (\<lambda>r. (r, g)) (rev (lazy_runs k s))"
| "matches (LazyPlus k) (s, g) = map (\<lambda>r. (r, g)) (lazy_runs k s)"
| "matches Eos (s, g) = (if s = [] \<or> s = [CHR 0x0A] then [(s, g)] else [])"
| "matches (Alt a b) st = matches a st @ matches b st"
| "matches (Seq a b) st = concat (map (matches b) (matches a st))"
| "matches (Group a) (s, g) =
     map (\<lambda>(r, _). (r, Some (take (length s - length r) s))) (matches a (s, g))"

fun search :: "regex \<Rightarrow> string \<Rightarrow> string option option" where
  \<comment> \<open>\<open>re.search\<close>: the first match at the leftmost start; the result is group 1\<close>
  "search p [] = (case matches p ([], None) of [] \<Rightarrow> None | st # _ \<Rightarrow> Some (snd st))"
| "search p (c # cs) =
     (case matches p (c # cs, None) of [] \<Rightarrow> search p cs | st # _ \<Rightarrow> Some (snd st))"

definition terminator :: regex where
  \<comment> \<open>\<open>(?:\,|\.|$|\s+let|\s+what|\s+and)\<close>\<close>
  "terminator =
     Alt (Lit '','') (Alt (Lit ''.'') (Alt Eos
       (Alt (Seq (Plus Space) (Lit ''let''))
         (Alt (Seq (Plus Space) (Lit ''what'')) (Seq (Plus Space) (Lit ''and''))))))"

definition capture :: regex where
  \<comment> \<open>\<open>\s+([A-Z][a-zA-Z\s]+?)\<close> and the terminator\<close>
  "capture =
     Seq (Plus Space) (Seq (Group (Seq (Cls Upper_AZ) (LazyPlus Alpha_or_space))) terminator)"

definition pattern1 :: regex where
  \<comment> \<open>\<open>(?:going to|visit|trip to|travel to)\s+([A-Z][a-zA-Z\s]+?)(?:...)\<close>\<close>
  "pattern1 =
     Seq (Alt (Lit ''going to'') (Alt (Lit ''visit'') (Alt (Lit ''trip to'') (Lit ''travel to''))))
       capture"

definition pattern2 :: regex where
  \<comment> \<open>\<open>(?:in|at)\s+([A-Z][a-zA-Z\s]+?)(?:...)\<close>\<close>
  "pattern2 = Seq (Alt (Lit ''in'') (Lit ''at'')) capture"

definition patterns :: "regex list" where
  "patterns = [pattern1, pattern2]"

section \<open>The parent agent: intent and location\<close>

text \<open>
  The dictionary \<open>{'weather': wants_weather, 'places': wants_places}\<close> that
  \<open>analyze_intent\<close> returns; the fields carry the names of the two local variables.
\<close>

record intent =
  wants_weather :: bool
  wants_places :: bool

definition weather_keywords :: "string list" where
  "weather_keywords =
     [''weather'', ''temperature'', ''rain'', ''forecast'',
      ''hot'', ''cold'', ''climate'', ''temp'']"

definition places_keywords :: "string list" where
  "places_keywords =
     [''visit'', ''places'', ''attractions'', ''see'', ''tour'',
      ''tourist'', ''sights'', ''destination'', ''spots'', ''things to do'']"

definition analyze_intent :: "string \<Rightarrow> intent" where
  "analyze_intent user_input =
     (let user_input_lower = lower user_input;
          weather = list_ex (\<lambda>keyword. contains keyword user_input_lower) weather_keywords;
          places = list_ex (\<lambda>keyword. contains keyword user_input_lower) places_keywords;
          places = (if \<not> weather \<and> \<not> places then True else places)
      in \<lparr>wants_weather = weather, wants_places = places\<rparr>)"

definition stopwords :: "string list" where
  "stopwords = [''i'', ''i'' @ [CHR 0x27] @ ''m'', ''let'' @ [CHR 0x27] @ ''s'',
                ''what'', ''is'', ''the'', ''and'']"

definition starts_upper :: "string \<Rightarrow> bool" where
  \<comment> \<open>\<open>word[0].isupper()\<close>; \<open>split()\<close> yields no empty word, so \<open>word[0]\<close> exists\<close>
  "starts_upper word = (case word of [] \<Rightarrow> False | c # _ \<Rightarrow> isupper c)"

fun try_patterns :: "regex list \<Rightarrow> string \<Rightarrow> string option" where
  \<comment> \<open>the loop over \<open>patterns\<close>; a candidate of length at most 2 is passed over\<close>
  "try_patterns [] user_input = None"
| "try_patterns (pattern # rest) user_input =
     (case search pattern user_input of
        Some (Some g) \<Rightarrow>
          (let location = strip g
           in if length location > 2 then Some location else try_patterns rest user_input)
      | _ \<Rightarrow> try_patterns rest user_input)"

fun scan_words :: "string list \<Rightarrow> string option" where
  \<comment> \<open>the loop over \<open>enumerate(words)\<close>; the argument is \<open>words[i:]\<close>\<close>
  "scan_words [] = None"
| "scan_words (word # rest) =
     (if starts_upper word \<and> lower word \<notin> set stopwords then
        (let location_parts = word # takeWhile starts_upper rest;
             location = join '' '' location_parts
         in if length location > 2 then Some location else scan_words rest)
      else scan_words rest)"

definition extract_location :: "string \<Rightarrow> string option" where
  "extract_location user_input =
     (if length (strip user_input) < 5 then None
      else (case try_patterns patterns user_input of
              Some location \<Rightarrow> Some location
            | None \<Rightarrow> scan_words (split user_input)))"

section \<open>The transport helper\<close>

text \<open>
  \<open>make_api_request\<close> sees the network through \<open>requests\<close>. What one attempt
  does is an \<open>outcome\<close>: a response with its status and its body, or one of the
  exceptions the helper catches. The behaviour of the network for one request is a
  function from the attempt number to the outcome. \<open>time.sleep\<close> has no effect on
  the value returned and is left out.

  The helper reads a response twice: \<open>response.json()\<close>, which gives the decoded
  document or raises \<open>ValueError\<close>, and then \<open>response.text\<close>. A \<open>body\<close> holds what
  these give: \<open>Json d\<close> when \<open>json()\<close> returns the document \<open>d\<close>, and \<open>Text s\<close>
  when \<open>json()\<close> raises and the text is \<open>s\<close>. A document is given in the shape the
  agent that asked for it reads, every key optional; \<open>'d\<close> is its type.
\<close>

datatype 'd body =
    Json 'd
  | Text string

datatype 'd outcome =
    Response nat "'d body"
  | Timeout
  | ConnectionError
  | OtherException string

text \<open>
  The envelope the helper returns is \<open>{'success': True, 'data': d}\<close>, where \<open>d\<close>
  is the decoded document or else the text of the response, or
  \<open>{'success': False, 'error': msg}\<close>. The callers read the message with
  \<open>response.get('error', default)\<close>, so the key is optional in the type.
\<close>

datatype 'd api_response =
    Success "'d body"
  | Failure "string option"

definition failure :: "string \<Rightarrow> 'd api_response" where
  \<comment> \<open>\<open>{'success': False, 'error': msg}\<close>\<close>
  "failure msg = Failure (Some msg)"

definition upper_char :: "char \<Rightarrow> string" where
  \<comment> \<open>\<open>str.upper()\<close> on one character; the capitals of U+00B5 and U+00FF lie beyond
      code point 255 and the model keeps the character\<close>
  "upper_char c = (let n = (of_char c :: nat) in
     if (97 \<le> n \<and> n \<le> 122) \<or> (224 \<le> n \<and> n \<le> 246) \<or> (248 \<le> n \<and> n \<le> 254)
     then [char_of (n - 32)]
     else if n = 223 then ''SS'' else [c])"

definition upper :: "string \<Rightarrow> string" where
  "upper s = concat (map upper_char s)"

function str_nat :: "nat \<Rightarrow> string" where
  \<comment> \<open>\<open>str(n)\<close> for a non-negative integer\<close>
  "str_nat n =
     (if n < 10 then [char_of (48 + n)] else str_nat (n div 10) @ [char_of (48 + n mod 10)])"
  by pat_completeness auto
termination
  by (relation "measure id") auto

fun attempt_loop :: "string \<Rightarrow> (nat \<Rightarrow> 'd outcome) \<Rightarrow> int \<Rightarrow> nat list \<Rightarrow> 'd api_response" where
  \<comment> \<open>the body of \<open>for attempt in range(max_retries)\<close>; the list is what is left of the range\<close>
  "attempt_loop method net max_retries [] = failure ''Maximum retry attempts reached''"
| "attempt_loop method net max_retries (attempt # rest) =
     (if upper method \<noteq> ''GET'' \<and> upper method \<noteq> ''POST''
      then failure (''Unsupported HTTP method: '' @ method)
      else (case net attempt of
              Response status body \<Rightarrow>
                if 400 \<le> status \<and> status < 600
                then failure (''HTTP error occurred: '' @ str_nat status)
                else (case body of
                        Json document \<Rightarrow> Success (Json document)
                      | Text s \<Rightarrow> Success (Text s))
            | Timeout \<Rightarrow>
                if int attempt < max_retries - 1
                then attempt_loop method net max_retries rest
                else failure ''Request timed out. Please try again.''
            | ConnectionError \<Rightarrow>
                if int attempt < max_retries - 1
                then attempt_loop method net max_retries rest
                else failure
                  ''Could not connect to the server. Please check your internet connection.''
            | OtherException msg \<Rightarrow> failure (''An unexpected error occurred: '' @ msg)))"

definition make_api_request :: "string \<Rightarrow> (nat \<Rightarrow> 'd outcome) \<Rightarrow> int \<Rightarrow> 'd api_response" where
  "make_api_request method net max_retries =
     attempt_loop method net max_retries [0..<nat max_retries]"

section \<open>Exceptions\<close>

text \<open>
  Neither the agents nor the orchestrator has a \<open>try\<close> of its own, so an exception
  raised in one of them leaves \<open>process_query\<close>. Three can arise on what the helper
  hands over: \<open>AttributeError\<close> from \<open>data.get(...)\<close> when \<open>data\<close> is the text of a
  response, \<open>TypeError\<close> from \<open>data[0]['lat']\<close> when \<open>data\<close> is a text that is not
  empty (\<open>data[0]\<close> is then a string of one character), and \<open>ValueError\<close> from
  \<open>float(...)\<close>. A function that can raise returns \<open>Inl\<close> of the exception.
\<close>

datatype py_error = ValueError | AttributeError | TypeError

section \<open>The weather agent\<close>

text \<open>
  The forecast document: \<open>current\<close> is an object of values, \<open>daily\<close> an object of
  arrays, each key optional. The agent copies the values and never inspects them, so
  their type \<open>'v\<close> is left open.
\<close>

record 'v forecast_body =
  fb_current :: "(string \<rightharpoonup> 'v) option"
  fb_daily :: "(string \<rightharpoonup> 'v list) option"
  fb_timezone :: "string option"

record 'v current =
  temperature :: "'v option"
  humidity :: "'v option"
  precipitation :: "'v option"
  weather_code :: "'v option"

record 'v forecast =
  max_temps :: "'v list"
  min_temps :: "'v list"
  precipitation_probability :: "'v list"
  dates :: "'v list"

record 'v weather_data =
  w_success :: bool
  w_error :: "string option"
  w_current :: "'v current option"
  w_forecast :: "'v forecast option"
  w_timezone :: "string option"

definition get_or :: "('k \<rightharpoonup> 'a) \<Rightarrow> 'k \<Rightarrow> 'a \<Rightarrow> 'a" where
  \<comment> \<open>\<open>d.get(key, default)\<close>\<close>
  "get_or d key dflt = (case d key of None \<Rightarrow> dflt | Some x \<Rightarrow> x)"

definition opt_or :: "'a option \<Rightarrow> 'a \<Rightarrow> 'a" where
  \<comment> \<open>\<open>d.get(key, default)\<close> where the key is an optional field\<close>
  "opt_or field dflt = (case field of None \<Rightarrow> dflt | Some x \<Rightarrow> x)"

definition get_weather ::
  "(nat \<Rightarrow> 'v forecast_body outcome) \<Rightarrow> py_error + 'v weather_data" where
  "get_weather net =
     (case make_api_request ''GET'' net 3 of
        Failure err \<Rightarrow>
          Inr \<lparr>w_success = False,
               w_error = Some (opt_or err ''Failed to fetch weather data''),
               w_current = None, w_forecast = None, w_timezone = None\<rparr>
      | Success (Text s) \<Rightarrow> Inl AttributeError
      | Success (Json data) \<Rightarrow>
          (let current = opt_or (fb_current data) Map.empty;
               daily = opt_or (fb_daily data) Map.empty
           in Inr
              \<lparr>w_success = True,
               w_error = None,
               w_current = Some
                 \<lparr>temperature = current ''temperature_2m'',
                  humidity = current ''relative_humidity_2m'',
                  precipitation = current ''precipitation'',
                  weather_code = current ''weather_code''\<rparr>,
               w_forecast = Some
                 \<lparr>max_temps = get_or daily ''temperature_2m_max'' [],
                  min_temps = get_or daily ''temperature_2m_min'' [],
                  precipitation_probability =
                    get_or daily ''precipitation_probability_max'' [],
                  dates = get_or daily ''time'' []\<rparr>,
               w_timezone = Some (opt_or (fb_timezone data) ''UTC'')\<rparr>))"

definition weather_codes :: "(int \<times> string) list" where
  "weather_codes =
     [(0, ''Clear sky''),
      (1, ''Mainly clear''),
      (2, ''Partly cloudy''),
      (3, ''Overcast''),
      (45, ''Foggy''),
      (48, ''Depositing rime fog''),
      (51, ''Light drizzle''),
      (53, ''Moderate drizzle''),
      (55, ''Dense drizzle''),
      (61, ''Slight rain''),
      (63, ''Moderate rain''),
      (65, ''Heavy rain''),
      (71, ''Slight snow''),
      (73, ''Moderate snow''),
      (75, ''Heavy snow''),
      (77, ''Snow grains''),
      (80, ''Slight rain showers''),
      (81, ''Moderate rain showers''),
      (82, ''Violent rain showers''),
      (85, ''Slight snow showers''),
      (86, ''Heavy snow showers''),
      (95, ''Thunderstorm''),
      (96, ''Thunderstorm with slight hail''),
      (99, ''Thunderstorm with heavy hail'')]"

definition get_weather_description :: "int \<Rightarrow> string" where
  "get_weather_description code = get_or (map_of weather_codes) code ''Unknown''"

section \<open>The places agent\<close>

text \<open>
  The geocoder answers with an array of matches whose \<open>lat\<close> and \<open>lon\<close> are
  strings. \<open>float(...)\<close> belongs to Python, not to this repository: it is the parameter
  \<open>py_float\<close>, which gives \<open>None\<close> where \<open>float\<close> raises \<open>ValueError\<close>.
  \<open>'c\<close> is the type of a coordinate. \<open>not response['data']\<close> holds of the empty
  array and of the empty text.
\<close>

record geo_match =
  m_lat :: string
  m_lon :: string

record 'c coords =
  lat :: 'c
  lon :: 'c

definition get_coordinates ::
  "(string \<Rightarrow> 'c option) \<Rightarrow> (nat \<Rightarrow> geo_match list outcome) \<Rightarrow> py_error + 'c coords option" where
  "get_coordinates py_float net =
     (case make_api_request ''GET'' net 3 of
        Failure err \<Rightarrow> Inr None
      | Success (Text s) \<Rightarrow> if s = [] then Inr None else Inl TypeError
      | Success (Json data) \<Rightarrow>
          (case data of
             [] \<Rightarrow> Inr None
           | m # _ \<Rightarrow>
               (case py_float (m_lat m) of
                  None \<Rightarrow> Inl ValueError
                | Some la \<Rightarrow>
                    (case py_float (m_lon m) of
                       None \<Rightarrow> Inl ValueError
                     | Some lo \<Rightarrow> Inr (Some \<lparr>lat = la, lon = lo\<rparr>)))))"

text \<open>
  An element of the spatial answer: an optional \<open>tags\<close> mapping from strings to
  strings, an optional \<open>center\<close> with its two coordinates, and optional \<open>lat\<close> and
  \<open>lon\<close> of its own.
\<close>

record 'v element =
  tags :: "(string \<rightharpoonup> string) option"
  center :: "('v \<times> 'v) option"
  e_lat :: "'v option"
  e_lon :: "'v option"

record 'v overpass_body =
  elements :: "'v element list option"

record 'v attraction =
  name :: string
  a_type :: string
  latitude :: "'v option"
  longitude :: "'v option"
  address :: string
  website :: string
  description :: string

record 'v places_data =
  p_success :: bool
  p_error :: "string option"
  attractions :: "'v attraction list option"
  count :: "nat option"
  message :: "string option"

definition or_else :: "string option \<Rightarrow> string \<Rightarrow> string" where
  \<comment> \<open>\<open>a or b\<close> where \<open>a\<close> is \<open>None\<close> or a string: \<open>None\<close> and the empty string are false\<close>
  "or_else a b = (case a of None \<Rightarrow> b | Some x \<Rightarrow> if x = [] then b else x)"

definition replace_underscore :: "string \<Rightarrow> string" where
  \<comment> \<open>\<open>s.replace('_', ' ')\<close>\<close>
  "replace_underscore s = map (\<lambda>c. if c = CHR ''_'' then CHR '' '' else c) s"

definition title_char :: "char \<Rightarrow> string" where
  \<comment> \<open>the title case of one character; as for \<open>upper_char\<close>, U+00B5 and U+00FF are kept\<close>
  "title_char c = (let n = (of_char c :: nat) in
     if (97 \<le> n \<and> n \<le> 122) \<or> (224 \<le> n \<and> n \<le> 246) \<or> (248 \<le> n \<and> n \<le> 254)
     then [char_of (n - 32)]
     else if n = 223 then ''Ss'' else [c])"

fun title_from :: "bool \<Rightarrow> string \<Rightarrow> string" where
  \<comment> \<open>\<open>str.title()\<close>: a character after a cased one is lowered, any other is title-cased\<close>
  "title_from previous_is_cased [] = []"
| "title_from previous_is_cased (c # cs) =
     (if previous_is_cased then [lower_char c] else title_char c)
       @ title_from (isupper c \<or> islower c) cs"

definition title :: "string \<Rightarrow> string" where
  "title s = title_from False s"

definition slice_to :: "int \<Rightarrow> 'a list \<Rightarrow> 'a list" where
  \<comment> \<open>\<open>xs[:k]\<close>; a negative \<open>k\<close> counts from the end\<close>
  "slice_to k xs = (if k < 0 then take (nat (int (length xs) + k)) xs else take (nat k) xs)"

definition attraction_type_of :: "(string \<rightharpoonup> string) \<Rightarrow> string" where
  \<comment> \<open>\<open>tags.get('tourism') or tags.get('historic') or tags.get('amenity', 'attraction')\<close>\<close>
  "attraction_type_of tgs =
     or_else (tgs ''tourism'') (or_else (tgs ''historic'') (get_or tgs ''amenity'' ''attraction''))"

definition make_attraction :: "'v element \<Rightarrow> (string \<rightharpoonup> string) \<Rightarrow> 'v attraction" where
  \<comment> \<open>what the loop body builds for an element it keeps\<close>
  "make_attraction el tgs =
     (let nm = get_or tgs ''name'' [];
          ll = (case center el of
                  Some (clat, clon) \<Rightarrow> (Some clat, Some clon)
                | None \<Rightarrow> (e_lat el, e_lon el));
          nm = (if nm = [] then title (replace_underscore (attraction_type_of tgs)) else nm)
      in \<lparr>name = nm,
          a_type = attraction_type_of tgs,
          latitude = fst ll,
          longitude = snd ll,
          address = or_else (tgs ''addr:full'') (get_or tgs ''addr:street'' []),
          website = get_or tgs ''website'' [],
          description = get_or tgs ''description'' []\<rparr>)"

definition tags_of :: "'v element \<Rightarrow> (string \<rightharpoonup> string)" where
  \<comment> \<open>\<open>element.get('tags', {})\<close>\<close>
  "tags_of el = opt_or (tags el) Map.empty"

fun collect :: "int \<Rightarrow> 'v attraction list \<Rightarrow> 'v element list \<Rightarrow> 'v attraction list" where
  \<comment> \<open>the loop over \<open>elements[:limit * 2]\<close>, with its \<open>continue\<close> and its \<open>break\<close>\<close>
  "collect limit acc [] = acc"
| "collect limit acc (el # rest) =
     (let tgs = tags_of el
      in if get_or tgs ''name'' [] = [] \<and> get_or tgs ''description'' [] = []
         then collect limit acc rest
         else (let acc = acc @ [make_attraction el tgs]
               in if int (length acc) \<ge> limit then acc else collect limit acc rest))"

definition get_tourist_attractions ::
  "(nat \<Rightarrow> 'v overpass_body outcome) \<Rightarrow> int \<Rightarrow> py_error + 'v places_data" where
  \<comment> \<open>\<open>net\<close> is the network's behaviour for the query built from the coordinates, the
      radius and the limit\<close>
  "get_tourist_attractions net limit =
     (case make_api_request ''POST'' net 3 of
        Failure err \<Rightarrow>
          Inr \<lparr>p_success = False,
               p_error = Some (opt_or err ''Failed to fetch tourist attractions''),
               attractions = None, count = None, message = None\<rparr>
      | Success (Text s) \<Rightarrow> Inl AttributeError
      | Success (Json data) \<Rightarrow>
          (let els = opt_or (elements data) []
           in if els = [] then
                Inr \<lparr>p_success = True, p_error = None, attractions = Some [], count = None,
                     message = Some ''No tourist attractions found in this area''\<rparr>
              else (let found = collect limit [] (slice_to (limit * 2) els)
                    in Inr \<lparr>p_success = True, p_error = None, attractions = Some found,
                            count = Some (length found), message = None\<rparr>)))"

text \<open>
  The query the agent sends selects the nodes and ways whose \<open>tourism\<close> value matches
  \<open>attraction|museum|artwork|viewpoint|zoo|theme_park\<close>, those whose \<open>historic\<close>
  value matches \<open>monument|memorial|castle|ruins\<close>, and those whose \<open>amenity\<close> is
  \<open>place_of_worship\<close>. The operator \<open>~\<close> of the query language searches the value
  for the regular expression, so a value matches when one of the words occurs in it.
  \<open>selected\<close> is the condition on the tags of an element; the \<open>around\<close> filter
  bears on the position only.
\<close>

definition tourism_words :: "string list" where
  "tourism_words =
     [''attraction'', ''museum'', ''artwork'', ''viewpoint'', ''zoo'', ''theme_park'']"

definition historic_words :: "string list" where
  "historic_words = [''monument'', ''memorial'', ''castle'', ''ruins'']"

definition tag_matches :: "string option \<Rightarrow> string list \<Rightarrow> bool" where
  \<comment> \<open>\<open>["key"~"w1|w2|..."]\<close>: the key is present and one of the words occurs in its value\<close>
  "tag_matches v ws =
     (case v of None \<Rightarrow> False | Some x \<Rightarrow> list_ex (\<lambda>word. contains word x) ws)"

definition selected :: "'v element \<Rightarrow> bool" where
  "selected el =
     (let tgs = tags_of el
      in tag_matches (tgs ''tourism'') tourism_words \<or>
         tag_matches (tgs ''historic'') historic_words \<or>
         tgs ''amenity'' = Some ''place_of_worship'')"

section \<open>The parent agent: the query\<close>

text \<open>
  The three services, as the orchestrator meets them: the behaviour of the network for
  the geocoding of a place name, for the forecast at a pair of coordinates, and for the
  spatial query at a pair of coordinates with a radius and a limit.
\<close>

record ('c, 'v) world =
  nominatim :: "string \<Rightarrow> nat \<Rightarrow> geo_match list outcome"
  open_meteo :: "'c \<Rightarrow> 'c \<Rightarrow> nat \<Rightarrow> 'v forecast_body outcome"
  overpass :: "'c \<Rightarrow> 'c \<Rightarrow> int \<Rightarrow> int \<Rightarrow> nat \<Rightarrow> 'v overpass_body outcome"

record 'v query_result =
  success :: bool
  error :: "string option"
  location :: "string option"
  weather :: "'v weather_data option"
  places :: "'v places_data option"

definition query_weather ::
  "(nat \<Rightarrow> 'v forecast_body outcome) \<Rightarrow> 'v query_result \<Rightarrow> py_error + 'v query_result" where
  \<comment> \<open>the body of \<open>if intent['weather']\<close>; an exception of \<open>get_weather\<close> is not caught\<close>
  "query_weather net results =
     (case get_weather net of
        Inl e \<Rightarrow> Inl e
      | Inr weather_data \<Rightarrow>
          Inr (if w_success weather_data then results\<lparr>weather := Some weather_data\<rparr>
               else results\<lparr>error :=
                      Some (opt_or (w_error weather_data) ''Failed to fetch weather data'')\<rparr>))"

definition query_places ::
  "(nat \<Rightarrow> 'v overpass_body outcome) \<Rightarrow> 'v query_result \<Rightarrow> py_error + 'v query_result" where
  \<comment> \<open>the body of \<open>if intent['places']\<close>; \<open>if results['error']\<close> is false on \<open>None\<close>
      and on the empty string; an exception of \<open>get_tourist_attractions\<close> is not caught\<close>
  "query_places net results =
     (case get_tourist_attractions net 5 of
        Inl e \<Rightarrow> Inl e
      | Inr places_data \<Rightarrow>
          (let msg = opt_or (p_error places_data) ''Failed to fetch places data''
           in Inr (if p_success places_data then results\<lparr>places := Some places_data\<rparr>
                   else (case error results of
                           None \<Rightarrow> results\<lparr>error := Some msg\<rparr>
                         | Some e \<Rightarrow>
                             if e \<noteq> [] then results\<lparr>error := Some (e @ '' Also: '' @ msg)\<rparr>
                             else results\<lparr>error := Some msg\<rparr>))))"

definition no_location_message :: string where
  "no_location_message =
     ''Could not identify a location in your query. Please mention a place name.''"

definition unknown_place_prefix :: string where
  "unknown_place_prefix =
     ''I'' @ [CHR 0x27] @ ''m sorry, I don'' @ [CHR 0x27] @ ''t know this place exists: ''"

definition process_query ::
  "(string \<Rightarrow> 'c option) \<Rightarrow> ('c, 'v) world \<Rightarrow> string \<Rightarrow> py_error + 'v query_result" where
  "process_query py_float w user_input =
     (case extract_location user_input of
        None \<Rightarrow>
          Inr \<lparr>success = False, error = Some no_location_message, location = None,
               weather = None, places = None\<rparr>
      | Some loc \<Rightarrow>
          if loc = [] then
            Inr \<lparr>success = False, error = Some no_location_message, location = None,
                 weather = None, places = None\<rparr>
          else
            (let intent = analyze_intent user_input;
                 results = \<lparr>success = True, error = None, location = Some loc,
                            weather = None, places = None\<rparr>
             in case get_coordinates py_float (nominatim w loc) of
                  Inl e \<Rightarrow> Inl e
                | Inr None \<Rightarrow>
                    Inr \<lparr>success = False, error = Some (unknown_place_prefix @ loc),
                         location = Some loc, weather = None, places = None\<rparr>
                | Inr (Some coords) \<Rightarrow>
                    (case (if wants_weather intent
                           then query_weather (open_meteo w (lat coords) (lon coords)) results
                           else Inr results) of
                       Inl e \<Rightarrow> Inl e
                     | Inr results \<Rightarrow>
                         (if wants_places intent
                          then query_places (overpass w (lat coords) (lon coords) 5000 5) results
                          else Inr results))))"

section \<open>Concrete services for the examples\<close>

definition steady :: "'d outcome \<Rightarrow> nat \<Rightarrow> 'd outcome" where
  \<comment> \<open>a network that does the same at every attempt\<close>
  "steady out attempt = out"

definition quiet_world :: "(string, nat) world" where
  \<comment> \<open>the geocoder knows no place; the two other services time out\<close>
  "quiet_world =
     \<lparr>nominatim = (\<lambda>place. steady (Response 200 (Json []))),
      open_meteo = (\<lambda>la lo. steady Timeout),
      overpass = (\<lambda>la lo radius limit. steady Timeout)\<rparr>"



definition text_float :: "string \<Rightarrow> string option" where
  \<comment> \<open>a stand-in for \<open>float\<close> that keeps the text of the number\<close>
  "text_float s = Some s"

definition uneven_forecast :: "nat forecast_body" where
  \<comment> \<open>a forecast document whose \<open>daily\<close> object holds one date and no other array\<close>
  "uneven_forecast =
     \<lparr>fb_current = None, fb_daily = Some [''time'' \<mapsto> [1]], fb_timezone = None\<rparr>"

definition three_day_forecast :: "nat forecast_body" where
  "three_day_forecast =
     \<lparr>fb_current = None,
      fb_daily = Some [''time'' \<mapsto> [1, 2, 3],
                       ''temperature_2m_max'' \<mapsto> [20, 21, 22],
                       ''temperature_2m_min'' \<mapsto> [10, 11, 12],
                       ''precipitation_probability_max'' \<mapsto> [0, 50, 100]],
      fb_timezone = None\<rparr>"

definition museum :: "nat element" where
  "museum = \<lparr>tags = Some [''name'' \<mapsto> ''Louvre'', ''tourism'' \<mapsto> ''museum''],
              center = None, e_lat = Some 48, e_lon = Some 2\<rparr>"

definition castle_ruin :: "nat element" where
  \<comment> \<open>a way: no name, a description and a category\<close>
  "castle_ruin = \<lparr>tags = Some [''description'' \<mapsto> ''old walls'', ''historic'' \<mapsto> ''castle''],
                   center = Some (48, 2), e_lat = None, e_lon = None\<rparr>"

definition unnamed_viewpoint :: "nat element" where
  \<comment> \<open>neither a name nor a description\<close>
  "unnamed_viewpoint = \<lparr>tags = Some [''tourism'' \<mapsto> ''viewpoint''],
                         center = None, e_lat = Some 48, e_lon = Some 2\<rparr>"

definition chapel :: "nat element" where
  \<comment> \<open>no name, a description, and \<open>amenity\<close> as its only category\<close>
  "chapel = \<lparr>tags = Some [''description'' \<mapsto> ''wayside chapel'',
                            ''amenity'' \<mapsto> ''place_of_worship''],
              center = None, e_lat = Some 48, e_lon = Some 2\<rparr>"

definition three_museums :: "nat overpass_body" where
  "three_museums = \<lparr>elements = Some [museum, museum, museum]\<rparr>"

definition mixed_elements :: "nat overpass_body" where
  "mixed_elements = \<lparr>elements = Some [museum, unnamed_viewpoint, castle_ruin, chapel]\<rparr>"

section \<open>Notions used in the statements\<close>

text \<open>
  Following the spec's words: a keyword "occurs as a case-insensitive substring" of a text
  when some stretch of the text, as long as the keyword, equals it up to case.
\<close>

definition occurs_ignoring_case :: "string \<Rightarrow> string \<Rightarrow> bool" where
  "occurs_ignoring_case keyword text =
     list_ex (\<lambda>i. lower (take (length keyword) (drop i text)) = lower keyword)
       [0..<Suc (length text)]"

text \<open>
  For the proofs about tokens: the first characters of the words of \<open>split()\<close>, read
  off the text directly. A word starts at a character that is not whitespace and that
  stands at the beginning of the text or after whitespace.
\<close>

fun token_starts :: "bool \<Rightarrow> string \<Rightarrow> string" where
  "token_starts at_start [] = []"
| "token_starts at_start (c # cs) =
     (if at_start \<and> \<not> isspace c then [c] else []) @ token_starts (isspace c) cs"

section \<open>The transport helper always explains a failure\<close>



section \<open>Location extraction on the advertised example\<close>

text \<open>
  C2. The claim: \<open>extract_location\<close> applied to "What's the weather in Tokyo?" returns
  "Tokyo". The code returns "What's": the question mark is none of the terminators of
  the second pattern, so no pattern matches, and the scan of the words stops at the first
  capitalised word, which the stop list (it holds "what", not "what's") lets through.
\<close>

theorem extract_location_tokyo:
  "extract_location (''What'' @ [CHR 0x27] @ ''s the weather in Tokyo?'')
     = Some (''What'' @ [CHR 0x27] @ ''s'')"
  by code_simp

section \<open>The table of weather codes\<close>

lemma weather_codes_keys:
  "map fst weather_codes =
     [0, 1, 2, 3, 45, 48, 51, 53, 55, 61, 63, 65, 71, 73, 75, 77, 80, 81, 82, 85, 86, 95, 96, 99]"
  by (simp add: weather_codes_def)

lemma card_weather_codes: "card (dom (map_of weather_codes)) = 24"
proof -
  have d: "distinct (map fst weather_codes)"
    unfolding weather_codes_keys by simp
  have "dom (map_of weather_codes) = set (map fst weather_codes)"
    by (simp add: dom_map_of_conv_image_fst)
  then have "card (dom (map_of weather_codes)) = length (map fst weather_codes)"
    using distinct_card [OF d] by simp
  then show ?thesis
    unfolding weather_codes_keys by simp
qed

text \<open>
  C8 as stated: the table maps exactly 23 codes. It maps 24.
\<close>

theorem weather_codes_not_23: "card (dom (map_of weather_codes)) \<noteq> 23"
  using card_weather_codes by simp

text \<open>
  C8, amended: \<open>get_weather_description\<close> is a lookup over a fixed table of exactly 24
  codes; a code of the table gets the table's description and every other integer gets
  "Unknown".
\<close>

theorem get_weather_description_lookup:
  "card (dom (map_of weather_codes)) = 24 \<and>
   (\<forall>code d. map_of weather_codes code = Some d \<longrightarrow> get_weather_description code = d) \<and>
   (\<forall>code. code \<notin> dom (map_of weather_codes) \<longrightarrow> get_weather_description code = ''Unknown'')"
  using card_weather_codes
  by (auto simp: get_weather_description_def get_or_def split: option.splits)

theorem get_weather_description_lookup_witness:
  "get_weather_description 45 = ''Foggy'' \<and> get_weather_description 4 = ''Unknown''"
proof -
  have a: "map_of weather_codes 45 = Some ''Foggy''"
    by (simp add: weather_codes_def)
  have b: "4 \<notin> dom (map_of weather_codes)"
    by (simp add: weather_codes_def dom_def)
  from get_weather_description_lookup a b show ?thesis
    by blast
qed

lemma upper_GET: "upper ''GET'' = ''GET''"
  by code_simp

lemma upper_POST: "upper ''POST'' = ''POST''"
  by code_simp

lemma attempt_first_response:
  assumes m: "upper method = ''GET'' \<or> upper method = ''POST''"
      and st: "status < 400 \<or> 600 \<le> status"
      and n: "net attempt = Response status body"
  shows "attempt_loop method net k (attempt # rest) = Success body"
proof -
  from m have a: "\<not> (upper method \<noteq> ''GET'' \<and> upper method \<noteq> ''POST'')"
    by blast
  from st have b: "\<not> (400 \<le> status \<and> status < 600)"
    by arith
  have c: "(case body of Json document \<Rightarrow> Success (Json document) | Text s \<Rightarrow> Success (Text s))
             = Success body"
    by (cases body) simp_all
  show ?thesis
    by (simp only: attempt_loop.simps a b c n if_False outcome.case)
qed

lemma request_steady_response:
  assumes m: "upper method = ''GET'' \<or> upper method = ''POST''"
      and k: "0 < k"
      and st: "status < 400 \<or> 600 \<le> status"
  shows "make_api_request method (steady (Response status body)) k = Success body"
proof -
  from k have "0 < nat k"
    by simp
  then have u: "[0..<nat k] = 0 # [Suc 0..<nat k]"
    by (rule upt_conv_Cons)
  have n: "steady (Response status body) 0 = Response status body"
    by (simp add: steady_def)
  show ?thesis
    unfolding make_api_request_def u
    by (rule attempt_first_response
          [of "method" "status" "steady (Response status body)" 0 "body", OF m st n])
qed

section \<open>The orchestrator\<close>

lemma query_weather_success: "query_weather net r = Inr r' \<Longrightarrow> success r' = success r"
  by (auto simp: query_weather_def split: sum.splits if_splits)

lemma query_places_success: "query_places net r = Inr r' \<Longrightarrow> success r' = success r"
  by (auto simp: query_places_def Let_def split: sum.splits if_splits option.splits)


lemma get_weather_raises:
  "(\<exists>e. get_weather net = Inl e) \<longleftrightarrow> (\<exists>s. make_api_request ''GET'' net 3 = Success (Text s))"
  by (auto simp: get_weather_def Let_def split: api_response.splits body.splits)

lemma get_tourist_attractions_raises:
  "(\<exists>e. get_tourist_attractions net limit = Inl e) \<longleftrightarrow>
     (\<exists>s. make_api_request ''POST'' net 3 = Success (Text s))"
  by (auto simp: get_tourist_attractions_def Let_def split: api_response.splits body.splits)



lemma try_patterns_long: "try_patterns ps t = Some l \<Longrightarrow> 2 < length l"
  by (induction ps) (auto simp: Let_def split: option.splits if_splits)

lemma scan_words_long: "scan_words ws = Some l \<Longrightarrow> 2 < length l"
  by (induction ws) (auto simp: Let_def split: if_splits)

lemma extract_location_long: "extract_location t = Some l \<Longrightarrow> 2 < length l"
  by (auto simp: extract_location_def split: if_splits option.splits
           dest: try_patterns_long scan_words_long)

lemma location_trip: "extract_location ''trip to Nowhereistan'' = Some ''Nowhereistan''"
  by code_simp

lemma coords_quiet:
  "get_coordinates text_float (nominatim quiet_world ''Nowhereistan'') = Inr None"
  by code_simp









text \<open>
  C3. When a location is extracted and the resolver returns none, \<open>process_query\<close>
  returns a result with \<open>success = False\<close>, the extracted location in the location field,
  and an error message that contains the location.
\<close>

theorem process_query_unknown_place:
  assumes loc: "extract_location user_input = Some loc"
      and co: "get_coordinates py_float (nominatim w loc) = Inr None"
  shows "\<exists>r e. process_query py_float w user_input = Inr r \<and> \<not> success r \<and>
     location r = Some loc \<and> error r = Some e \<and> sublist loc e"
proof -
  from extract_location_long [OF loc] have ne: "loc \<noteq> []"
    by auto
  show ?thesis
    using loc co ne by (auto simp: process_query_def Let_def)
qed

theorem process_query_unknown_place_witness:
  "\<exists>r e. process_query text_float quiet_world ''trip to Nowhereistan'' = Inr r \<and>
     \<not> success r \<and> location r = Some ''Nowhereistan'' \<and> error r = Some e \<and>
     sublist ''Nowhereistan'' e"
  using process_query_unknown_place [OF location_trip coords_quiet] by simp

text \<open>
  C9. Whenever \<open>process_query\<close> returns a result with \<open>success = False\<close>, the weather
  field and the places field of that result are both none.
\<close>

theorem process_query_failure_no_data:
  "process_query py_float w user_input = Inr r \<Longrightarrow> \<not> success r \<Longrightarrow>
     weather r = None \<and> places r = None"
  by (auto simp: process_query_def Let_def
           split: option.splits if_splits sum.splits
           dest: query_weather_success query_places_success)

lemma location_short: "extract_location ''hi'' = None"
  by code_simp

theorem process_query_failure_no_data_witness:
  "\<exists>r. process_query text_float quiet_world ''hi'' = Inr r \<and> \<not> success r \<and>
     weather r = None \<and> places r = None"
proof -
  have a: "process_query text_float quiet_world ''hi'' =
      Inr \<lparr>success = False, error = Some no_location_message, location = None,
           weather = None, places = None\<rparr>"
    by (simp add: process_query_def location_short)
  from process_query_failure_no_data [OF a] a show ?thesis
    by simp
qed

section \<open>The forecast arrays\<close>

text \<open>
  C7 as stated: the four forecast arrays of a successful \<open>get_weather\<close> have equal
  length. On a forecast document whose \<open>daily\<close> object holds only a \<open>time\<close> array
  of one entry, the dates have length 1 and the maximum temperatures length 0.
\<close>

theorem get_weather_uneven:
  "map_sum id
     (\<lambda>w. (w_success w,
           map_option (\<lambda>f. (length (dates f), length (max_temps f))) (w_forecast w)))
     (get_weather (steady (Response 200 (Json uneven_forecast))))
   = Inr (True, Some (1, 0))"
  by code_simp

text \<open>
  C7, amended: the four forecast arrays of a successful \<open>get_weather\<close> are the arrays
  \<open>temperature_2m_max\<close>, \<open>temperature_2m_min\<close>, \<open>precipitation_probability_max\<close>
  and \<open>time\<close> of the upstream document's \<open>daily\<close> object, unchanged, and the empty
  list where the key or the object is absent; so they have equal length, and 3 entries
  each, exactly when the upstream arrays do.
\<close>

theorem get_weather_forecast_passthrough:
  assumes "make_api_request ''GET'' net 3 = Success (Json data)"
  shows "\<exists>snapshot. get_weather net = Inr snapshot \<and> w_success snapshot \<and>
     (let daily = opt_or (fb_daily data) Map.empty
      in w_forecast snapshot = Some
          \<lparr>max_temps = get_or daily ''temperature_2m_max'' [],
           min_temps = get_or daily ''temperature_2m_min'' [],
           precipitation_probability = get_or daily ''precipitation_probability_max'' [],
           dates = get_or daily ''time'' []\<rparr>)"
  using assms by (simp add: get_weather_def Let_def)

lemma request_three_day:
  "make_api_request ''GET'' (steady (Response 200 (Json three_day_forecast))) 3
     = Success (Json three_day_forecast)"
  by (simp add: request_steady_response upper_GET)

theorem get_weather_forecast_passthrough_witness:
  "\<exists>snapshot. get_weather (steady (Response 200 (Json three_day_forecast))) = Inr snapshot \<and>
     w_success snapshot \<and>
     w_forecast snapshot =
       Some \<lparr>max_temps = [20, 21, 22], min_temps = [10, 11, 12],
             precipitation_probability = [0, 50, 100], dates = [1, 2, 3]\<rparr>"
  using get_weather_forecast_passthrough [OF request_three_day]
  by (simp add: three_day_forecast_def opt_or_def get_or_def)

section \<open>The attractions the places agent keeps\<close>

lemma title_from_nonempty: "s \<noteq> [] \<Longrightarrow> title_from b s \<noteq> []"
  by (cases s) (auto simp: title_char_def Let_def)

lemma title_nonempty: "s \<noteq> [] \<Longrightarrow> title s \<noteq> []"
  by (simp add: title_def title_from_nonempty)

lemma make_attraction_name:
  "a_type (make_attraction el tgs) \<noteq> [] \<Longrightarrow> name (make_attraction el tgs) \<noteq> []"
  by (auto simp: make_attraction_def Let_def replace_underscore_def intro!: title_nonempty)

lemma make_attraction_fields:
  "description (make_attraction el tgs) = get_or tgs ''description'' []"
  "get_or tgs ''name'' [] \<noteq> [] \<Longrightarrow> name (make_attraction el tgs) = get_or tgs ''name'' []"
  "a_type (make_attraction el tgs) = attraction_type_of tgs"
  by (simp_all add: make_attraction_def Let_def)

lemma collect_from:
  "a \<in> set (collect limit acc els) \<Longrightarrow>
     a \<in> set acc \<or>
     (\<exists>el\<in>set els. a = make_attraction el (tags_of el) \<and>
        \<not> (get_or (tags_of el) ''name'' [] = [] \<and> get_or (tags_of el) ''description'' [] = []))"
proof (induction els arbitrary: acc)
  case Nil
  then show ?case
    by simp
next
  case (Cons el rest)
  let ?new = "make_attraction el (tags_of el)"
  show ?case
  proof (cases "get_or (tags_of el) ''name'' [] = [] \<and> get_or (tags_of el) ''description'' [] = []")
    case True
    with Cons show ?thesis
      by auto
  next
    case keep: False
    show ?thesis
    proof (cases "int (length (acc @ [?new])) \<ge> limit")
      case True
      with Cons.prems keep show ?thesis
        by (auto simp: Let_def)
    next
      case False
      with Cons.prems keep have "a \<in> set (collect limit (acc @ [?new]) rest)"
        by (simp add: Let_def)
      from Cons.IH [OF this] keep show ?thesis
        by auto
    qed
  qed
qed

lemma collect_bound:
  "int (length acc) < limit \<Longrightarrow> int (length (collect limit acc els)) \<le> limit"
  by (induction els arbitrary: acc) (auto simp: Let_def)

lemma set_slice_to: "set (slice_to k xs) \<subseteq> set xs"
  by (auto simp: slice_to_def dest: in_set_takeD)

lemma attractions_success:
  "make_api_request ''POST'' net 3 = Success (Json data) \<Longrightarrow>
     \<exists>pd. get_tourist_attractions net limit = Inr pd \<and> p_success pd \<and>
       attractions pd =
         Some (collect limit [] (slice_to (limit * 2) (opt_or (elements data) [])))"
  by (simp add: get_tourist_attractions_def Let_def slice_to_def)

lemma word_in_value: "list_ex (\<lambda>word. contains word x) ws \<Longrightarrow> [] \<notin> set ws \<Longrightarrow> x \<noteq> []"
  by (auto simp: list_ex_iff)

lemma tag_matches_value:
  "tag_matches v ws \<Longrightarrow> [] \<notin> set ws \<Longrightarrow> \<exists>x. v = Some x \<and> x \<noteq> []"
  by (cases v) (auto simp: tag_matches_def dest: word_in_value)

lemma or_else_value: "x \<noteq> [] \<Longrightarrow> or_else (Some x) b = x"
  by (simp add: or_else_def)

lemma or_else_nonempty: "b \<noteq> [] \<Longrightarrow> or_else a b \<noteq> []"
  by (simp add: or_else_def split: option.splits)

lemma selected_category:
  assumes "selected el"
  shows "attraction_type_of (tags_of el) \<noteq> []"
proof -
  let ?tgs = "tags_of el"
  from assms consider
      (tourism) "tag_matches (?tgs ''tourism'') tourism_words"
    | (historic) "tag_matches (?tgs ''historic'') historic_words"
    | (amenity) "?tgs ''amenity'' = Some ''place_of_worship''"
    by (auto simp: selected_def Let_def)
  then show ?thesis
  proof cases
    case tourism
    then obtain x where "?tgs ''tourism'' = Some x" "x \<noteq> []"
      using tag_matches_value [of "?tgs ''tourism''" tourism_words]
      by (auto simp: tourism_words_def)
    then show ?thesis
      by (simp add: attraction_type_of_def or_else_value)
  next
    case historic
    then obtain x where "?tgs ''historic'' = Some x" "x \<noteq> []"
      using tag_matches_value [of "?tgs ''historic''" historic_words]
      by (auto simp: historic_words_def)
    then have "or_else (?tgs ''historic'') (get_or ?tgs ''amenity'' ''attraction'') \<noteq> []"
      by (simp add: or_else_value)
    then show ?thesis
      unfolding attraction_type_of_def by (rule or_else_nonempty)
  next
    case amenity
    then have "get_or ?tgs ''amenity'' ''attraction'' \<noteq> []"
      by (simp add: get_or_def)
    then have "or_else (?tgs ''historic'') (get_or ?tgs ''amenity'' ''attraction'') \<noteq> []"
      by (rule or_else_nonempty)
    then show ?thesis
      unfolding attraction_type_of_def by (rule or_else_nonempty)
  qed
qed

lemma request_mixed:
  "make_api_request ''POST'' (steady (Response 200 (Json mixed_elements))) 3
     = Success (Json mixed_elements)"
  by (simp add: request_steady_response upper_POST)

lemma selected_mixed: "list_all selected [museum, unnamed_viewpoint, castle_ruin, chapel]"
  by code_simp

lemma attractions_mixed:
  "get_tourist_attractions (steady (Response 200 (Json mixed_elements))) 5 =
     Inr \<lparr>p_success = True, p_error = None,
          attractions = Some
            [\<lparr>name = ''Louvre'', a_type = ''museum'', latitude = Some 48, longitude = Some 2,
               address = [], website = [], description = []\<rparr>,
             \<lparr>name = ''Castle'', a_type = ''castle'', latitude = Some 48, longitude = Some 2,
               address = [], website = [], description = ''old walls''\<rparr>,
             \<lparr>name = ''Place Of Worship'', a_type = ''place_of_worship'', latitude = Some 48,
               longitude = Some 2, address = [], website = [],
               description = ''wayside chapel''\<rparr>],
          count = Some 3, message = None\<rparr>"
  by code_simp

text \<open>
  C6. For every answer to the spatial query, that is, for every answer whose elements
  the query selects: every record in the output of \<open>get_tourist_attractions\<close> is built
  from an element that has a non-empty name tag or a non-empty description tag (the
  elements with neither are discarded), so no record has both an empty name and an empty
  description; and every record has a non-empty name, which is the name tag or, where
  the element has none, the title-cased category.
\<close>

theorem attractions_named:
  assumes req: "make_api_request ''POST'' net 3 = Success (Json data)"
      and sel: "\<forall>el\<in>set (opt_or (elements data) []). selected el"
  shows "\<exists>pd found. get_tourist_attractions net limit = Inr pd \<and> p_success pd \<and>
     attractions pd = Some found \<and>
     (\<forall>a\<in>set found.
        name a \<noteq> [] \<and>
        (\<exists>el\<in>set (opt_or (elements data) []).
           a = make_attraction el (tags_of el) \<and>
           \<not> (get_or (tags_of el) ''name'' [] = [] \<and>
              get_or (tags_of el) ''description'' [] = []) \<and>
           name a = (if get_or (tags_of el) ''name'' [] = []
                     then title (replace_underscore (attraction_type_of (tags_of el)))
                     else get_or (tags_of el) ''name'' [])))"
proof -
  let ?els = "opt_or (elements data) []"
  let ?found = "collect limit [] (slice_to (limit * 2) ?els)"
  from attractions_success [OF req] obtain pd
    where pd: "get_tourist_attractions net limit = Inr pd" "p_success pd"
      "attractions pd = Some ?found"
    by blast
  have each: "name a \<noteq> [] \<and>
        (\<exists>el\<in>set ?els.
           a = make_attraction el (tags_of el) \<and>
           \<not> (get_or (tags_of el) ''name'' [] = [] \<and>
              get_or (tags_of el) ''description'' [] = []) \<and>
           name a = (if get_or (tags_of el) ''name'' [] = []
                     then title (replace_underscore (attraction_type_of (tags_of el)))
                     else get_or (tags_of el) ''name'' []))"
    if a: "a \<in> set ?found" for a
  proof -
    from collect_from [OF a]
    have "\<exists>el\<in>set (slice_to (limit * 2) ?els). a = make_attraction el (tags_of el) \<and>
            \<not> (get_or (tags_of el) ''name'' [] = [] \<and>
               get_or (tags_of el) ''description'' [] = [])"
      by simp
    then obtain el
      where el: "el \<in> set (slice_to (limit * 2) ?els)"
        and mk: "a = make_attraction el (tags_of el)"
        and keep: "\<not> (get_or (tags_of el) ''name'' [] = [] \<and>
                       get_or (tags_of el) ''description'' [] = [])"
      by (elim bexE conjE)
    from el have el': "el \<in> set ?els"
      by (rule subsetD [OF set_slice_to])
    with sel have "selected el"
      by (rule bspec)
    then have "a_type a \<noteq> []"
      unfolding mk by (simp add: make_attraction_fields selected_category)
    then have nm: "name a \<noteq> []"
      unfolding mk by (rule make_attraction_name)
    have how: "name a = (if get_or (tags_of el) ''name'' [] = []
                     then title (replace_underscore (attraction_type_of (tags_of el)))
                     else get_or (tags_of el) ''name'' [])"
      unfolding mk by (simp add: make_attraction_def Let_def)
    from el' mk keep how
    have "\<exists>el\<in>set ?els.
           a = make_attraction el (tags_of el) \<and>
           \<not> (get_or (tags_of el) ''name'' [] = [] \<and>
              get_or (tags_of el) ''description'' [] = []) \<and>
           name a = (if get_or (tags_of el) ''name'' [] = []
                     then title (replace_underscore (attraction_type_of (tags_of el)))
                     else get_or (tags_of el) ''name'' [])"
      by blast
    with nm show ?thesis
      by simp
  qed
  from pd each show ?thesis
    by blast
qed

theorem attractions_named_witness:
  "\<exists>pd found.
     get_tourist_attractions (steady (Response 200 (Json mixed_elements))) 5 = Inr pd \<and>
     attractions pd = Some found \<and> length found = 3 \<and> list_all (\<lambda>a. name a \<noteq> []) found"
proof -
  have sel: "\<forall>el\<in>set (opt_or (elements mixed_elements) []). selected el"
    using selected_mixed by (simp add: mixed_elements_def opt_or_def list_all_iff)
  from attractions_named [OF request_mixed sel, of 5] obtain pd found
    where out: "get_tourist_attractions (steady (Response 200 (Json mixed_elements))) 5 = Inr pd"
      and found: "attractions pd = Some found"
      and names: "\<forall>a\<in>set found. name a \<noteq> []"
    by blast
  from out found have "length found = 3"
    by (auto simp: attractions_mixed)
  moreover from names have "list_all (\<lambda>a. name a \<noteq> []) found"
    by (simp add: list_all_iff)
  ultimately show ?thesis
    using out found by blast
qed

text \<open>
  C10 as stated: the number of attractions is at most the limit parameter. With the
  limit -1 and three named elements, \<open>elements[:-2]\<close> is the first element, it is kept,
  and the result holds one attraction.
\<close>

theorem attractions_over_negative_limit:
  "map_sum id
     (\<lambda>pd. (p_success pd, count pd,
            map_option (\<lambda>found. int (length found) \<le> - 1) (attractions pd)))
     (get_tourist_attractions (steady (Response 200 (Json three_museums))) (- 1))
   = Inr (True, Some 1, Some False)"
  by code_simp

text \<open>
  C10, amended: for every upstream response with a non-empty elements array and every
  limit that is not negative (the default 5 among them), a successful result of
  \<open>get_tourist_attractions\<close> has \<open>count\<close> equal to the length of the attractions list,
  and that length is at most the limit.
\<close>

theorem attractions_count_bounded:
  assumes lim: "0 \<le> limit"
      and req: "make_api_request ''POST'' net 3 = Success (Json data)"
      and els: "elements data = Some els" "els \<noteq> []"
  shows "\<exists>found. get_tourist_attractions net limit =
            Inr \<lparr>p_success = True, p_error = None, attractions = Some found,
                 count = Some (length found), message = None\<rparr> \<and>
          int (length found) \<le> limit"
proof -
  let ?found = "collect limit [] (slice_to (limit * 2) els)"
  have "int (length ?found) \<le> limit"
  proof (cases "limit = 0")
    case True
    then show ?thesis
      by (simp add: slice_to_def)
  next
    case False
    with lim have "int (length ([] :: 'a attraction list)) < limit"
      by simp
    then show ?thesis
      by (rule collect_bound)
  qed
  moreover have "get_tourist_attractions net limit =
      Inr \<lparr>p_success = True, p_error = None, attractions = Some ?found,
           count = Some (length ?found), message = None\<rparr>"
    using req els by (simp add: get_tourist_attractions_def opt_or_def Let_def)
  ultimately show ?thesis
    by blast
qed

lemma request_three_museums:
  "make_api_request ''POST'' (steady (Response 200 (Json three_museums))) 3
     = Success (Json three_museums)"
  by (simp add: request_steady_response upper_POST)

theorem attractions_count_bounded_witness:
  "\<exists>found. get_tourist_attractions (steady (Response 200 (Json three_museums))) 2 =
            Inr \<lparr>p_success = True, p_error = None, attractions = Some found,
                 count = Some (length found), message = None\<rparr> \<and>
          int (length found) \<le> 2"
  using attractions_count_bounded [of 2, OF _ request_three_museums, of "[museum, museum, museum]"]
  by (simp add: three_museums_def)

section \<open>Intent classification\<close>

lemma contains_iff: "contains sub s \<longleftrightarrow> (\<exists>i\<le>length s. prefix sub (drop i s))"
proof (induction s)
  case Nil
  then show ?case by simp
next
  case (Cons c cs)
  have "(\<exists>i\<le>length (c # cs). prefix sub (drop i (c # cs))) \<longleftrightarrow>
        prefix sub (c # cs) \<or> (\<exists>i\<le>length cs. prefix sub (drop i cs))"
  proof
    assume "\<exists>i\<le>length (c # cs). prefix sub (drop i (c # cs))"
    then obtain i where i: "i \<le> length (c # cs)" "prefix sub (drop i (c # cs))" by blast
    show "prefix sub (c # cs) \<or> (\<exists>i\<le>length cs. prefix sub (drop i cs))"
    proof (cases i)
      case 0
      with i show ?thesis by simp
    next
      case (Suc j)
      with i have "j \<le> length cs" "prefix sub (drop j cs)" by simp_all
      then show ?thesis by blast
    qed
  next
    assume "prefix sub (c # cs) \<or> (\<exists>i\<le>length cs. prefix sub (drop i cs))"
    then show "\<exists>i\<le>length (c # cs). prefix sub (drop i (c # cs))"
    proof
      assume "prefix sub (c # cs)"
      then have "0 \<le> length (c # cs) \<and> prefix sub (drop 0 (c # cs))" by simp
      then show ?thesis by blast
    next
      assume "\<exists>i\<le>length cs. prefix sub (drop i cs)"
      then obtain j where "j \<le> length cs" "prefix sub (drop j cs)" by blast
      then have "Suc j \<le> length (c # cs) \<and> prefix sub (drop (Suc j) (c # cs))" by simp
      then show ?thesis by blast
    qed
  qed
  with Cons show ?case by simp
qed

lemma prefix_lower:
  "prefix (lower k) (lower x) \<longleftrightarrow> lower (take (length k) x) = lower k"
proof -
  have "prefix (lower k) (lower x) \<longleftrightarrow> take (length (lower k)) (lower x) = lower k"
    by (metis append_eq_conv_conj prefix_def append_take_drop_id)
  also have "take (length (lower k)) (lower x) = lower (take (length k) x)"
    by (simp add: lower_def take_map)
  finally show ?thesis .
qed

lemma contains_lower:
  "contains (lower k) (lower t) \<longleftrightarrow> occurs_ignoring_case k t"
proof -
  have "contains (lower k) (lower t) \<longleftrightarrow> (\<exists>i\<le>length t. prefix (lower k) (drop i (lower t)))"
    by (simp add: contains_iff lower_def)
  also have "\<dots> \<longleftrightarrow> (\<exists>i\<le>length t. lower (take (length k) (drop i t)) = lower k)"
    using prefix_lower [of k] by (simp add: lower_def drop_map)
  also have "\<dots> \<longleftrightarrow> occurs_ignoring_case k t"
    unfolding occurs_ignoring_case_def list_ex_iff set_upt
    by (metis atLeastLessThan_iff less_Suc_eq_le zero_le)
  finally show ?thesis .
qed

lemma keywords_lower:
  "\<forall>k\<in>set weather_keywords \<union> set places_keywords. lower k = k"
  by code_simp

text \<open>
  C4. For every text in which no weather keyword and no places keyword occurs as a
  case-insensitive substring, \<open>analyze_intent\<close> returns \<open>wants_weather = False\<close> and
  \<open>wants_places = True\<close>; and for every text at least one of the two flags is true.
\<close>

theorem analyze_intent_default:
  "((\<forall>k\<in>set weather_keywords \<union> set places_keywords. \<not> occurs_ignoring_case k user_input)
      \<longrightarrow> analyze_intent user_input = \<lparr>wants_weather = False, wants_places = True\<rparr>) \<and>
   (wants_weather (analyze_intent user_input) \<or> wants_places (analyze_intent user_input))"
proof
  show "(\<forall>k\<in>set weather_keywords \<union> set places_keywords. \<not> occurs_ignoring_case k user_input)
      \<longrightarrow> analyze_intent user_input = \<lparr>wants_weather = False, wants_places = True\<rparr>"
  proof
    assume none: "\<forall>k\<in>set weather_keywords \<union> set places_keywords.
                    \<not> occurs_ignoring_case k user_input"
    have "\<not> contains k (lower user_input)"
      if "k \<in> set weather_keywords \<union> set places_keywords" for k
    proof -
      from that keywords_lower have "lower k = k"
        by blast
      with contains_lower [of k user_input] none that show ?thesis
        by simp
    qed
    then have "\<not> list_ex (\<lambda>k. contains k (lower user_input)) weather_keywords"
      and "\<not> list_ex (\<lambda>k. contains k (lower user_input)) places_keywords"
      by (simp_all add: list_ex_iff)
    then show "analyze_intent user_input = \<lparr>wants_weather = False, wants_places = True\<rparr>"
      by (simp add: analyze_intent_def Let_def)
  qed
  show "wants_weather (analyze_intent user_input) \<or> wants_places (analyze_intent user_input)"
    by (simp add: analyze_intent_def Let_def)
qed

theorem analyze_intent_default_witness:
  "analyze_intent ''Paris'' = \<lparr>wants_weather = False, wants_places = True\<rparr>"
proof -
  have "\<forall>k\<in>set weather_keywords \<union> set places_keywords. \<not> occurs_ignoring_case k ''Paris''"
    by code_simp
  with analyze_intent_default [of "''Paris''"] show ?thesis
    by blast
qed

section \<open>Location extraction needs a capitalised word\<close>

lemma token_starts_False:
  "token_starts False s =
     (case s of [] \<Rightarrow> [] | d # _ \<Rightarrow>
        if isspace d then token_starts True s else tl (token_starts True s))"
  by (cases s) auto

lemma split_heads: "map hd (split s) = token_starts True s \<and> [] \<notin> set (split s)"
proof (induction s)
  case Nil
  then show ?case by simp
next
  case (Cons c cs)
  show ?case
  proof (cases "isspace c")
    case True
    with Cons show ?thesis by simp
  next
    case nsp: False
    show ?thesis
    proof (cases "split cs")
      case Nil
      with Cons have "token_starts True cs = []" by simp
      then have "token_starts False cs = []"
        by (simp add: token_starts_False split: list.splits)
      with Nil nsp show ?thesis by simp
    next
      case (Cons w ws)
      note sp = this
      show ?thesis
      proof (cases cs)
        case Nil
        with sp show ?thesis by simp
      next
        case (Cons d ds)
        from Cons.IH sp have ih: "hd w # map hd ws = token_starts True cs" "w \<noteq> []" "[] \<notin> set ws"
          by auto
        show ?thesis
        proof (cases "isspace d")
          case True
          then have "token_starts False cs = token_starts True cs"
            using Cons by (simp add: token_starts_False)
          with ih sp nsp Cons True show ?thesis by simp
        next
          case False
          then have "token_starts False cs = tl (token_starts True cs)"
            using Cons by (simp add: token_starts_False)
          with ih sp nsp Cons False show ?thesis
            by (simp add: ih(1) [symmetric])
        qed
      qed
    qed
  qed
qed


lemma token_starts_after_space:
  "isspace w \<Longrightarrow> \<not> isspace u \<Longrightarrow> u \<in> set (token_starts b (pre @ w # u # rest))"
  by (induction pre arbitrary: b) auto

lemma upper_AZ_class: "in_class Upper_AZ c \<Longrightarrow> isupper c \<and> \<not> isspace c"
  by (auto simp: isupper_def isspace_def Let_def)

lemma capitalized_token:
  assumes "isspace w" and "in_class Upper_AZ u"
  shows "\<exists>tok\<in>set (split (pre @ w # u # rest)). starts_upper tok"
proof -
  from assms upper_AZ_class have u: "isupper u" "\<not> isspace u"
    by blast+
  let ?t = "pre @ w # u # rest"
  from token_starts_after_space [OF assms(1) u(2)] have "u \<in> set (token_starts True ?t)" .
  with split_heads [of ?t] have "u \<in> set (map hd (split ?t))"
    by simp
  then obtain tok where tok: "tok \<in> set (split ?t)" "hd tok = u"
    by auto
  with split_heads [of ?t] have "tok \<noteq> []"
    by auto
  then obtain c cs where "tok = c # cs"
    by (auto simp: neq_Nil_conv)
  with tok(2) u(1) have "starts_upper tok"
    by (simp add: starts_upper_def)
  with tok(1) show ?thesis
    by blast
qed

lemma lazy_runs_prefix:
  "r \<in> set (lazy_runs k s) \<Longrightarrow> \<exists>pre. pre \<noteq> [] \<and> s = pre @ r \<and> (\<forall>c\<in>set pre. in_class k c)"
proof (induction s arbitrary: r)
  case Nil
  then show ?case by simp
next
  case (Cons c cs)
  then have c: "in_class k c" and r: "r = cs \<or> r \<in> set (lazy_runs k cs)"
    by (auto split: if_splits)
  from r show ?case
  proof
    assume "r = cs"
    with c have "[c] \<noteq> [] \<and> c # cs = [c] @ r \<and> (\<forall>x\<in>set [c]. in_class k x)"
      by simp
    then show ?thesis by blast
  next
    assume "r \<in> set (lazy_runs k cs)"
    from Cons.IH [OF this] obtain pre where "pre \<noteq> []" "cs = pre @ r" "\<forall>x\<in>set pre. in_class k x"
      by blast
    with c have "c # pre \<noteq> [] \<and> c # cs = (c # pre) @ r \<and> (\<forall>x\<in>set (c # pre). in_class k x)"
      by simp
    then show ?thesis by blast
  qed
qed

lemma matches_suffix:
  "(r, g') \<in> set (matches p (s, g)) \<Longrightarrow> \<exists>pre. s = pre @ r"
proof (induction p arbitrary: s g r g')
  case (Lit l)
  then show ?case
    by (auto simp: prefix_def split: if_splits)
next
  case (Cls k)
  then show ?case
    by (auto split: list.splits if_splits)
next
  case (Plus k)
  then show ?case
    by (auto dest: lazy_runs_prefix)
next
  case (LazyPlus k)
  then show ?case
    by (auto dest: lazy_runs_prefix)
next
  case Eos
  then show ?case
    by (auto split: if_splits)
next
  case (Alt a b)
  then show ?case
    by auto
next
  case (Seq a b)
  from Seq.prems obtain m g1 where m: "(m, g1) \<in> set (matches a (s, g))"
      and r: "(r, g') \<in> set (matches b (m, g1))"
    by auto
  from Seq.IH(1) [OF m] obtain p1 where "s = p1 @ m" by blast
  moreover from Seq.IH(2) [OF r] obtain p2 where "m = p2 @ r" by blast
  ultimately have "s = (p1 @ p2) @ r" by simp
  then show ?case by blast
next
  case (Group a)
  then show ?case
    by auto
qed

lemma seq_nonempty:
  "matches (Seq a b) st \<noteq> [] \<Longrightarrow> \<exists>st'\<in>set (matches a st). matches b st' \<noteq> []"
  by auto

lemma capture_shape:
  assumes "matches capture (s, g) \<noteq> []"
  shows "\<exists>pre w u rest. s = pre @ w # u # rest \<and> isspace w \<and> in_class Upper_AZ u"
proof -
  from assms obtain st1 where st1: "st1 \<in> set (matches (Plus Space) (s, g))"
      and m1: "matches (Seq (Group (Seq (Cls Upper_AZ) (LazyPlus Alpha_or_space))) terminator) st1 \<noteq> []"
    unfolding capture_def by (blast dest: seq_nonempty)
  from st1 obtain r where r: "r \<in> set (lazy_runs Space s)" and st1_eq: "st1 = (r, g)"
    by auto
  from lazy_runs_prefix [OF r] obtain sp where sp: "sp \<noteq> []" "s = sp @ r" "\<forall>c\<in>set sp. isspace c"
    by auto
  from m1 obtain st2 where
    "st2 \<in> set (matches (Group (Seq (Cls Upper_AZ) (LazyPlus Alpha_or_space))) (r, g))"
    unfolding st1_eq by (blast dest: seq_nonempty)
  then have "matches (Seq (Cls Upper_AZ) (LazyPlus Alpha_or_space)) (r, g) \<noteq> []"
    by auto
  then obtain st3 where "st3 \<in> set (matches (Cls Upper_AZ) (r, g))"
    by (blast dest: seq_nonempty)
  then obtain u rest where u: "r = u # rest" "in_class Upper_AZ u"
    by (auto split: list.splits if_splits)
  from sp(1) obtain sp' w where w: "sp = sp' @ [w]"
    by (cases sp rule: rev_cases) auto
  with sp have "isspace w" "s = sp' @ w # r"
    by auto
  with u show ?thesis
    by blast
qed

lemma pattern_shape:
  assumes "matches (Seq a capture) (s, g) \<noteq> []"
  shows "\<exists>pre w u rest. s = pre @ w # u # rest \<and> isspace w \<and> in_class Upper_AZ u"
proof -
  from assms obtain m g1 where m: "(m, g1) \<in> set (matches a (s, g))"
      and c: "matches capture (m, g1) \<noteq> []"
    by (metis seq_nonempty surj_pair)
  from matches_suffix [OF m] obtain p1 where p1: "s = p1 @ m" by blast
  from capture_shape [OF c] obtain pre w u rest
    where "m = pre @ w # u # rest" "isspace w" "in_class Upper_AZ u"
    by blast
  with p1 have "s = (p1 @ pre) @ w # u # rest \<and> isspace w \<and> in_class Upper_AZ u"
    by simp
  then show ?thesis by blast
qed

lemma search_start:
  "search p t = Some x \<Longrightarrow> \<exists>pre s. t = pre @ s \<and> matches p (s, None) \<noteq> []"
proof (induction t)
  case Nil
  then show ?case
    by (auto split: list.splits)
next
  case (Cons c cs)
  show ?case
  proof (cases "matches p (c # cs, None)")
    case Nil
    with Cons.prems have "search p cs = Some x" by simp
    from Cons.IH [OF this] obtain pre s where "cs = pre @ s" "matches p (s, None) \<noteq> []"
      by blast
    then have "c # cs = (c # pre) @ s \<and> matches p (s, None) \<noteq> []" by simp
    then show ?thesis by blast
  next
    case (Cons st sts)
    then have "c # cs = [] @ (c # cs) \<and> matches p (c # cs, None) \<noteq> []" by simp
    then show ?thesis by blast
  qed
qed

lemma search_capitalized:
  assumes "search (Seq a capture) t = Some x"
  shows "\<exists>tok\<in>set (split t). starts_upper tok"
proof -
  from search_start [OF assms] obtain p0 s where t: "t = p0 @ s"
      and m: "matches (Seq a capture) (s, None) \<noteq> []"
    by blast
  from pattern_shape [OF m] obtain pre w u rest
    where s: "s = pre @ w # u # rest" and w: "isspace w" and u: "in_class Upper_AZ u"
    by blast
  from t s have "t = (p0 @ pre) @ w # u # rest" by simp
  with capitalized_token [OF w u, of "p0 @ pre" rest] show ?thesis
    by simp
qed

lemma try_patterns_capitalized:
  "try_patterns patterns t = Some l \<Longrightarrow> \<exists>tok\<in>set (split t). starts_upper tok"
  by (auto simp: patterns_def pattern1_def pattern2_def Let_def
           split: option.splits if_splits dest: search_capitalized)

lemma scan_words_none: "\<forall>w\<in>set ws. \<not> starts_upper w \<Longrightarrow> scan_words ws = None"
  by (induction ws) auto

text \<open>
  Group 1 takes part in every match of the two patterns, so \<open>match.group(1)\<close> is
  never \<open>None\<close> where \<open>extract_location\<close> strips it.
\<close>

lemma terminator_keeps_group:
  "(r, g') \<in> set (matches terminator (s, g)) \<Longrightarrow> g' = g"
  by (auto simp: terminator_def split: if_splits)

lemma capture_sets_group:
  "(r, g') \<in> set (matches capture (s, g)) \<Longrightarrow> g' \<noteq> None"
  by (auto simp: capture_def dest!: terminator_keeps_group)

lemma search_result:
  "search p t = Some x \<Longrightarrow> \<exists>s st. st \<in> set (matches p (s, None)) \<and> x = snd st"
proof (induction t)
  case Nil
  show ?case
  proof (cases "matches p ([], None)")
    case empty: Nil
    with Nil show ?thesis
      by simp
  next
    case (Cons st sts)
    with Nil have "st \<in> set (matches p ([], None)) \<and> x = snd st"
      by simp
    then show ?thesis
      by blast
  qed
next
  case (Cons c cs)
  show ?case
  proof (cases "matches p (c # cs, None)")
    case Nil
    with Cons show ?thesis
      by simp
  next
    case (Cons st sts)
    with Cons.prems have "st \<in> set (matches p (c # cs, None)) \<and> x = snd st"
      by simp
    then show ?thesis
      by blast
  qed
qed

lemma search_sets_group: "search (Seq a capture) t \<noteq> Some None"
proof
  assume "search (Seq a capture) t = Some None"
  from search_result [OF this] obtain s st
    where st: "st \<in> set (matches (Seq a capture) (s, None))" and n: "None = snd st"
    by blast
  from st obtain y where y: "st \<in> set (matches capture y)"
    by auto
  obtain r g' where st_eq: "st = (r, g')"
    by (cases st)
  obtain m g1 where y_eq: "y = (m, g1)"
    by (cases y)
  from y have "(r, g') \<in> set (matches capture (m, g1))"
    unfolding st_eq y_eq .
  from capture_sets_group [OF this] have "snd st \<noteq> None"
    by (simp add: st_eq)
  with n show False
    by simp
qed

text \<open>
  C5. For every text with no capitalised token (no word of \<open>split()\<close> whose first
  character is an uppercase letter), \<open>extract_location\<close> returns none.
\<close>

theorem extract_location_no_capital:
  assumes "\<forall>tok\<in>set (split user_input). \<not> starts_upper tok"
  shows "extract_location user_input = None"
proof -
  from assms try_patterns_capitalized have "try_patterns patterns user_input = None"
    by (cases "try_patterns patterns user_input") blast+
  moreover from assms have "scan_words (split user_input) = None"
    by (rule scan_words_none)
  ultimately show ?thesis
    by (simp add: extract_location_def)
qed

theorem extract_location_no_capital_witness: "extract_location ''what is the weather in tokyo?'' = None"
proof -
  have "\<forall>tok\<in>set (split ''what is the weather in tokyo?''). \<not> starts_upper tok"
    by code_simp
  then show ?thesis
    by (rule extract_location_no_capital)
qed

end
